theory Spec2Isabelle
  imports
    Complex_Main
    "HOL-Library.Log_Nat"
    "HOL-Library.AList"
    "HOL-Library.Char_ord"
    "HOL-Library.List_Lexorder"
    "HOL-Library.Product_Lexorder"
    "HOL-Library.Multiset"
begin

section \<open>Python numbers\<close>

text \<open>
  Python's \<^verbatim>\<open>int\<close> is unbounded and is modelled by \<^typ>\<open>int\<close>. A Python \<^verbatim>\<open>float\<close> is an
  IEEE 754 double: a rational number with a 53 bit significand. Floats are carried as
  \<^typ>\<open>rat\<close>, and every arithmetic operation on them computes the exact result and rounds it
  to the nearest double, ties to even (\<open>fl\<close>). The exponent range is taken as unbounded:
  overflow to infinity, subnormal numbers and NaN are outside the model.
\<close>

definition pow2 :: "int \<Rightarrow> rat" where
  "pow2 e = (if 0 \<le> e then 2 ^ nat e else 1 / 2 ^ nat (- e))"

text \<open>The binary exponent of a positive number: \<open>pow2 (binade x) \<le> x < pow2 (binade x + 1)\<close>.\<close>

definition binade :: "rat \<Rightarrow> int" where
  "binade x = (if 1 \<le> x then int (floorlog 2 (nat \<lfloor>x\<rfloor>)) - 1
               else - int (floorlog 2 (nat (\<lceil>1 / x\<rceil> - 1))))"

definition round_half_even :: "rat \<Rightarrow> int" where
  "round_half_even x = (let f = \<lfloor>x\<rfloor>; r = x - of_int f in
     if r < 1 / 2 then f else if 1 / 2 < r then f + 1 else if even f then f else f + 1)"

definition fl :: "rat \<Rightarrow> rat" where
  "fl x = (if x = 0 then 0 else
     let u = pow2 (binade \<bar>x\<bar> - 52) in of_int (round_half_even (x / u)) * u)"

definition fsub :: "rat \<Rightarrow> rat \<Rightarrow> rat" where
  "fsub x y = fl (x - y)"

definition fmul :: "rat \<Rightarrow> rat \<Rightarrow> rat" where
  "fmul x y = fl (x * y)"

definition fdiv :: "rat \<Rightarrow> rat \<Rightarrow> rat" where
  "fdiv x y = fl (x / y)"

text \<open>\<^verbatim>\<open>float(n)\<close>, the conversion applied to an \<^verbatim>\<open>int\<close> operand of a mixed operation.\<close>

definition float_of_int :: "int \<Rightarrow> rat" where
  "float_of_int n = fl (of_int n)"

text \<open>\<^verbatim>\<open>a / b\<close> on two \<^verbatim>\<open>int\<close>s: the correctly rounded quotient.\<close>

definition int_truediv :: "int \<Rightarrow> int \<Rightarrow> rat" where
  "int_truediv a b = fl (of_int a / of_int b)"

text \<open>\<^verbatim>\<open>int(x)\<close> on a float truncates towards zero.\<close>

definition py_int :: "rat \<Rightarrow> int" where
  "py_int x = (if 0 \<le> x then \<lfloor>x\<rfloor> else \<lceil>x\<rceil>)"

definition len :: "'a list \<Rightarrow> int" where
  "len xs = int (length xs)"

section \<open>Exceptions\<close>

text \<open>
  An exception is known to the handlers of this program by the classes it is an instance of
  and by its \<^verbatim>\<open>str()\<close>. \<open>TimeoutError\<close> is \<^verbatim>\<open>asyncio.TimeoutError\<close>,
  \<open>ClientConnectionError\<close> and \<open>ClientError\<close> are the classes of \<^verbatim>\<open>aiohttp\<close>.
  \<^verbatim>\<open>KeyboardInterrupt\<close> and \<^verbatim>\<open>asyncio.CancelledError\<close> are instances of \<open>BaseException\<close>
  only.
\<close>

datatype exc_class =
  TimeoutError | ClientConnectionError | ClientError | ValueError | IndexError
  | Exception | BaseException

record py_exception =
  mro :: "exc_class list"
  str :: string

definition isinstance :: "py_exception \<Rightarrow> exc_class \<Rightarrow> bool" where
  "isinstance e c = (c \<in> set (mro e))"

definition raise_ValueError :: "string \<Rightarrow> py_exception" where
  "raise_ValueError msg = \<lparr>mro = [ValueError, Exception, BaseException], str = msg\<rparr>"

definition raise_IndexError :: "string \<Rightarrow> py_exception" where
  "raise_IndexError msg = \<lparr>mro = [IndexError, Exception, BaseException], str = msg\<rparr>"

section \<open>The tester and its results\<close>

datatype json =
  JNull | JBool bool | JNumber rat | JString string | JArray "json list"
  | JObject "(string \<times> json) list"

text \<open>One entry of \<^verbatim>\<open>self.results\<close>: the dictionary built by \<^verbatim>\<open>print_result\<close>.\<close>

record result =
  req_id :: int
  status_code :: int
  response_time :: rat
  error :: string
  timestamp :: rat

text \<open>
  The fields of \<^verbatim>\<open>APILoadTester\<close> that hold data. \<^verbatim>\<open>self.lock\<close> and \<^verbatim>\<open>self.session\<close> are
  handles of the runtime and carry none.
\<close>

record tester =
  url :: string
  http_method :: string
  request_body :: "json option"
  requests_per_second :: int
  total_requests :: int
  use_random_user_agent :: bool
  results :: "result list"

definition USER_AGENTS :: "string list" where
  "USER_AGENTS =
    [''Mozilla/5.0 (Windows NT 10.0; Win64; x64) AppleWebKit/537.36 (KHTML, like Gecko) Chrome/91.0.4472.124 Safari/537.36'',
     ''Mozilla/5.0 (Macintosh; Intel Mac OS X 10_15_7) AppleWebKit/537.36 (KHTML, like Gecko) Chrome/91.0.4472.124 Safari/537.36'',
     ''Mozilla/5.0 (X11; Linux x86_64) AppleWebKit/537.36 (KHTML, like Gecko) Chrome/91.0.4472.124 Safari/537.36'',
     ''Mozilla/5.0 (Windows NT 10.0; Win64; x64; rv:89.0) Gecko/20100101 Firefox/89.0'',
     ''Mozilla/5.0 (Macintosh; Intel Mac OS X 10.15; rv:89.0) Gecko/20100101 Firefox/89.0'',
     ''Mozilla/5.0 (X11; Linux x86_64; rv:89.0) Gecko/20100101 Firefox/89.0'',
     ''Mozilla/5.0 (Windows NT 10.0; Win64; x64) AppleWebKit/537.36 (KHTML, like Gecko) Edge/91.0.864.59'',
     ''Mozilla/5.0 (Macintosh; Intel Mac OS X 10_15_7) AppleWebKit/605.1.15 (KHTML, like Gecko) Version/14.1.1 Safari/605.1.15'']"

section \<open>The world outside the program\<close>

text \<open>
  The arguments of \<^verbatim>\<open>self.session.request\<close>, and what the call does: it yields a response
  with a status, or raises.
\<close>

record http_request =
  req_method :: string
  req_url :: string
  req_headers :: "(string \<times> string) list"
  req_json :: "json option"
  req_timeout :: int

datatype net_result = Response int | Raises py_exception

text \<open>
  Everything a run reads from outside, indexed by request id: the index drawn by
  \<^verbatim>\<open>random.choice\<close>, the three readings of \<^verbatim>\<open>time.time()\<close> (before the call, when it
  ends, when the result is stored), and the answer of the HTTP client. The tasks of a batch
  run concurrently; \<open>completion_order\<close> gives the order in which the tasks of a batch reach
  \<^verbatim>\<open>print_result\<close>.
\<close>

record env =
  random_choice :: "int \<Rightarrow> nat"
  clock_start :: "int \<Rightarrow> rat"
  clock_end :: "int \<Rightarrow> rat"
  clock_stored :: "int \<Rightarrow> rat"
  session_request :: "int \<Rightarrow> http_request \<Rightarrow> net_result"
  completion_order :: "int list \<Rightarrow> int list"

section \<open>\<^verbatim>\<open>make_request\<close>\<close>

definition request_headers :: "tester \<Rightarrow> env \<Rightarrow> int \<Rightarrow> (string \<times> string) list" where
  "request_headers self w request_id =
    (let headers = [(''Content-Type'', ''application/json'')] in
     if use_random_user_agent self
     then AList.update ''User-Agent''
            (USER_AGENTS ! (random_choice w request_id mod length USER_AGENTS)) headers
     else headers)"

definition request_args :: "tester \<Rightarrow> env \<Rightarrow> int \<Rightarrow> http_request" where
  "request_args self w request_id =
    \<lparr>req_method = http_method self,
     req_url = url self,
     req_headers = request_headers self w request_id,
     req_json = (if http_method self \<in> set [''POST'', ''PUT''] then request_body self else None),
     req_timeout = 30\<rparr>"

text \<open>
  The result is the returned tuple \<^verbatim>\<open>(request_id, status_code, response_time, error_message)\<close>,
  or \<open>Inl\<close> the exception that no handler caught.
\<close>

definition make_request ::
  "tester \<Rightarrow> env \<Rightarrow> int \<Rightarrow> py_exception + (int \<times> int \<times> rat \<times> string)" where
  "make_request self w request_id =
    (let start_time = clock_start w request_id;
         response_time = fmul (fsub (clock_end w request_id) start_time) 1000
     in case session_request w request_id (request_args self w request_id) of
          Response status \<Rightarrow> Inr (request_id, status, response_time, [])
        | Raises e \<Rightarrow>
            if isinstance e TimeoutError then
              Inr (request_id, 0, response_time, ''Timeout'')
            else if isinstance e ClientConnectionError then
              Inr (request_id, 0, response_time, ''Connection Error'')
            else if isinstance e ClientError then
              Inr (request_id, 0, response_time, ''Client Error: '' @ str e)
            else if isinstance e Exception then
              Inr (request_id, 0, response_time, ''Unexpected Error: '' @ str e)
            else Inl e)"

section \<open>\<^verbatim>\<open>print_result\<close>\<close>


section \<open>Built-in functions used by the summary\<close>

text \<open>\<^verbatim>\<open>max\<close> and \<^verbatim>\<open>min\<close> on a list keep the first extremal element; both raise on \<^verbatim>\<open>[]\<close>.\<close>

fun py_max :: "rat list \<Rightarrow> py_exception + rat" where
  "py_max [] = Inl (raise_ValueError ''max() arg is an empty sequence'')"
| "py_max (x # xs) = Inr (fold (\<lambda>y m. if m < y then y else m) xs x)"

fun py_min :: "rat list \<Rightarrow> py_exception + rat" where
  "py_min [] = Inl (raise_ValueError ''min() arg is an empty sequence'')"
| "py_min (x # xs) = Inr (fold (\<lambda>y m. if y < m then y else m) xs x)"

text \<open>\<^verbatim>\<open>xs[i]\<close>: a negative index counts from the end, an index out of range raises.\<close>

definition py_getitem :: "'a list \<Rightarrow> int \<Rightarrow> py_exception + 'a" where
  "py_getitem xs i =
    (let j = (if i < 0 then len xs + i else i) in
     if 0 \<le> j \<and> j < len xs then Inr (xs ! nat j)
     else Inl (raise_IndexError ''list index out of range''))"

text \<open>\<^verbatim>\<open>d.get(k, default)\<close> on a dictionary kept as an association list.\<close>

definition dict_get :: "('k \<times> 'v) list \<Rightarrow> 'k \<Rightarrow> 'v \<Rightarrow> 'v" where
  "dict_get d k dflt = (case map_of d k of None \<Rightarrow> dflt | Some v \<Rightarrow> v)"

text \<open>A \<^verbatim>\<open>for\<close> loop whose body may raise: it stops at the first exception.\<close>

fun for_each :: "('a \<Rightarrow> 'e + 'b) \<Rightarrow> 'a list \<Rightarrow> 'e + 'b list" where
  "for_each f [] = Inr []"
| "for_each f (x # xs) =
    (case f x of
       Inl e \<Rightarrow> Inl e
     | Inr y \<Rightarrow> (case for_each f xs of Inl e \<Rightarrow> Inl e | Inr ys \<Rightarrow> Inr (y # ys)))"

text \<open>
  \<^verbatim>\<open>statistics.mean\<close>, \<^verbatim>\<open>statistics.median\<close> and \<^verbatim>\<open>statistics.stdev\<close> belong to the standard
  library; the summary takes them as given.
\<close>

record statistics =
  mean :: "rat list \<Rightarrow> rat"
  median :: "rat list \<Rightarrow> rat"
  stdev :: "rat list \<Rightarrow> rat"

section \<open>\<^verbatim>\<open>print_summary\<close>\<close>

text \<open>
  The summary is what \<^verbatim>\<open>print_summary\<close> prints, before formatting: one field for each
  printed number, \<open>None\<close> (or an empty distribution) for a block that is not printed.
\<close>

record response_time_statistics =
  rt_count :: int
  rt_average :: rat
  rt_median :: rat
  rt_min :: rat
  rt_max :: rat
  rt_std_dev :: rat
  rt_percentiles :: "(int \<times> rat) list"

record throughput_analysis =
  per_second :: rat
  per_minute :: rat
  data_points_per_second :: rat
  efficiency :: rat

record performance_analysis =
  fast :: "int \<times> rat"
  medium :: "int \<times> rat"
  slow :: "int \<times> rat"

record summary_data =
  n_total :: int
  n_successful :: int
  n_failed :: int
  success_rate :: rat
  duration_seconds :: rat
  target_rps :: int
  rps_actual :: rat
  response_times_block :: "response_time_statistics option"
  throughput_block :: "throughput_analysis option"
  status_code_distribution :: "(int \<times> int \<times> rat) list"
  error_distribution :: "(string \<times> int \<times> rat) list"
  performance_block :: "performance_analysis option"

datatype summary = No_results | Summary summary_data

text \<open>Test duration and actual requests per second (source lines 196 to 203).\<close>

definition duration_and_rate :: "result list \<Rightarrow> py_exception + (rat \<times> rat)" where
  "duration_and_rate rs =
    (if rs \<noteq> [] then
       let timestamps = map timestamp rs in
       case py_max timestamps of
         Inl e \<Rightarrow> Inl e
       | Inr mx \<Rightarrow>
           (case py_min timestamps of
              Inl e \<Rightarrow> Inl e
            | Inr mn \<Rightarrow>
                let test_duration = fsub mx mn;
                    actual_rps = (if 0 < test_duration
                                  then fdiv (float_of_int (len rs)) test_duration else 0)
                in Inr (test_duration, actual_rps))
     else Inr (0, 0))"

text \<open>The index into the sorted response times for percentile \<open>p\<close> (source lines 230 to 232).\<close>

definition percentile_index :: "int \<Rightarrow> int \<Rightarrow> int" where
  "percentile_index p n =
    (let idx = py_int (fmul (int_truediv p 100) (float_of_int n)) - 1 in
     if idx < 0 then 0 else idx)"

definition percentile :: "rat list \<Rightarrow> int \<Rightarrow> py_exception + rat" where
  "percentile sorted_times p = py_getitem sorted_times (percentile_index p (len sorted_times))"

definition percentiles :: "int list" where
  "percentiles = [50, 75, 90, 95, 99]"

text \<open>The block printed when there is a successful request (source lines 216 to 233).\<close>

definition response_time_block ::
  "statistics \<Rightarrow> rat list \<Rightarrow> py_exception + response_time_statistics" where
  "response_time_block lib response_times =
    (case py_min response_times of
       Inl e \<Rightarrow> Inl e
     | Inr mn \<Rightarrow>
         (case py_max response_times of
            Inl e \<Rightarrow> Inl e
          | Inr mx \<Rightarrow>
              let sorted_times = sort response_times in
              (case for_each (percentile sorted_times) percentiles of
                 Inl e \<Rightarrow> Inl e
               | Inr ps \<Rightarrow>
                   Inr \<lparr>rt_count = len response_times,
                        rt_average = mean lib response_times,
                        rt_median = median lib response_times,
                        rt_min = mn,
                        rt_max = mx,
                        rt_std_dev = (if len response_times > 1 then stdev lib response_times
                                      else 0),
                        rt_percentiles = zip percentiles ps\<rparr>)))"

text \<open>The block printed when the test duration is positive (source lines 236 to 244).\<close>

definition throughput ::
  "tester \<Rightarrow> rat \<Rightarrow> rat \<Rightarrow> throughput_analysis option" where
  "throughput self test_duration actual_rps =
    (if 0 < test_duration then
       Some \<lparr>per_second = actual_rps,
             per_minute = fmul actual_rps 60,
             data_points_per_second = fdiv (float_of_int (len (results self))) test_duration,
             efficiency = (if requests_per_second self > 0
                           then fmul (fdiv actual_rps (float_of_int (requests_per_second self))) 100
                           else 0)\<rparr>
     else None)"

text \<open>The two dictionaries of counts (source lines 247 to 251 and 260 to 264).\<close>

definition count_status_codes :: "result list \<Rightarrow> (int \<times> int) list" where
  "count_status_codes rs =
    fold (\<lambda>r status_codes.
            let code = status_code r in
            if code > 0 then AList.update code (dict_get status_codes code 0 + 1) status_codes
            else status_codes) rs []"

definition count_errors :: "result list \<Rightarrow> (string \<times> int) list" where
  "count_errors rs =
    fold (\<lambda>r errors.
            if error r \<noteq> [] then
              let error_type = takeWhile (\<lambda>c. c \<noteq> CHR '':'') (error r) in
              AList.update error_type (dict_get errors error_type 0 + 1) errors
            else errors) rs []"

text \<open>A sorted dictionary with the share of each entry in the total, as printed.\<close>

definition distribution :: "('k::linorder \<times> int) list \<Rightarrow> int \<Rightarrow> ('k \<times> int \<times> rat) list" where
  "distribution d count_all =
    map (\<lambda>(k, count). (k, count, fmul (int_truediv count count_all) 100)) (sort d)"

definition performance :: "rat list \<Rightarrow> int \<Rightarrow> performance_analysis option" where
  "performance all_response_times count_all =
    (if all_response_times \<noteq> [] then
       let fast_requests = len (filter (\<lambda>t. t < 100) all_response_times);
           medium_requests = len (filter (\<lambda>t. 100 \<le> t \<and> t < 500) all_response_times);
           slow_requests = len (filter (\<lambda>t. 500 \<le> t) all_response_times)
       in Some \<lparr>fast = (fast_requests, fmul (int_truediv fast_requests count_all) 100),
                medium = (medium_requests, fmul (int_truediv medium_requests count_all) 100),
                slow = (slow_requests, fmul (int_truediv slow_requests count_all) 100)\<rparr>
     else None)"

text \<open>
  \<^verbatim>\<open>print_summary\<close> returns what it printed, or \<open>Inl\<close> the exception it raised, together with
  the tester it leaves behind.
\<close>

definition summarize :: "statistics \<Rightarrow> tester \<Rightarrow> py_exception + summary" where
  "summarize lib self =
    (if results self = [] then Inr No_results
     else
       let count_all = len (results self);
           successful_requests = len (filter (\<lambda>r. status_code r > 0) (results self));
           failed_requests = count_all - successful_requests;
           response_times = map response_time (filter (\<lambda>r. status_code r > 0) (results self));
           all_response_times = map response_time (results self)
       in case duration_and_rate (results self) of
            Inl e \<Rightarrow> Inl e
          | Inr (duration, rps) \<Rightarrow>
              (case (if response_times \<noteq> []
                     then map_sum id Some (response_time_block lib response_times)
                     else Inr None) of
                 Inl e \<Rightarrow> Inl e
               | Inr block \<Rightarrow>
                   Inr (Summary
                     \<lparr>n_total = count_all,
                      n_successful = successful_requests,
                      n_failed = failed_requests,
                      success_rate = fmul (int_truediv successful_requests count_all) 100,
                      duration_seconds = duration,
                      target_rps = requests_per_second self,
                      rps_actual = rps,
                      response_times_block = block,
                      throughput_block = throughput self duration rps,
                      status_code_distribution =
                        distribution (count_status_codes (results self)) count_all,
                      error_distribution = distribution (count_errors (results self)) count_all,
                      performance_block = performance all_response_times count_all\<rparr>)))"

definition print_summary :: "statistics \<Rightarrow> tester \<Rightarrow> (py_exception + summary) \<times> tester" where
  "print_summary lib self = (summarize lib self, self)"

section \<open>\<^verbatim>\<open>run_load_test\<close>\<close>

definition batch_size :: "tester \<Rightarrow> int" where
  "batch_size self =
    (if requests_per_second self \<ge> 100 then min (requests_per_second self) 1000
     else requests_per_second self)"

text \<open>\<^verbatim>\<open>range(start, stop, step)\<close> for a step other than 0 (a step of 0 raises).\<close>

function py_range :: "int \<Rightarrow> int \<Rightarrow> int \<Rightarrow> int list" where
  "py_range start stop step =
    (if 0 < step \<and> start < stop \<or> step < 0 \<and> stop < start
     then start # py_range (start + step) stop step else [])"
  by pat_completeness auto
termination
  by (relation "measure (\<lambda>(start, stop, step). nat (if 0 < step then stop - start else start - stop))")
    auto

text \<open>
  What one turn of the batch loop sets up: the request ids of the batch, the capacity of its
  semaphore, and whether the loop sleeps after it.
\<close>

record batch =
  batch_requests :: "int list"
  semaphore :: int
  sleeps :: bool

definition make_batch :: "tester \<Rightarrow> int \<Rightarrow> batch" where
  "make_batch self batch_start =
    (let batch_end = min (batch_start + batch_size self) (total_requests self);
         requests = [batch_start + 1 .. batch_end]
     in \<lparr>batch_requests = requests,
         semaphore = min (len requests) 1000,
         sleeps = (batch_end < total_requests self)\<rparr>)"

definition batches :: "tester \<Rightarrow> batch list" where
  "batches self = map (make_batch self) (py_range 0 (total_requests self) (batch_size self))"




declare py_range.simps [simp del]

section \<open>Example inputs\<close>

definition server_timeout :: py_exception where
  "server_timeout =
    \<lparr>mro = [TimeoutError, ClientConnectionError, ClientError, Exception, BaseException],
     str = ''Timeout on reading data from socket''\<rparr>"

definition payload_error :: py_exception where
  "payload_error = \<lparr>mro = [ClientError, Exception, BaseException], str = ''bad payload''\<rparr>"

definition post_tester :: tester where
  "post_tester =
    \<lparr>url = ''https://example.com/api'', http_method = ''POST'',
     request_body = Some (JObject [(''name'', JString ''x'')]),
     requests_per_second = 250, total_requests = 600, use_random_user_agent = True,
     results = []\<rparr>"

definition get_tester :: tester where
  "get_tester =
    \<lparr>url = ''https://example.com/api'', http_method = ''GET'',
     request_body = Some (JObject [(''name'', JString ''x'')]),
     requests_per_second = 2, total_requests = 5, use_random_user_agent = False,
     results = []\<rparr>"

text \<open>
  A world in which request 2 times out, request 3 gets a 503, request 4 fails in the client,
  every other request gets a 200, each call takes a quarter of a second, and the tasks of a
  batch finish in reverse order.
\<close>

definition slow_world :: env where
  "slow_world =
    \<lparr>random_choice = (\<lambda>i. nat i),
     clock_start = (\<lambda>i. of_int i),
     clock_end = (\<lambda>i. of_int i + 1 / 4),
     clock_stored = (\<lambda>i. of_int i + 1 / 2),
     session_request = (\<lambda>i req. if i = 2 then Raises server_timeout
                                 else if i = 3 then Response 503
                                 else if i = 4 then Raises payload_error else Response 200),
     completion_order = rev\<rparr>"

definition plain_statistics :: statistics where
  "plain_statistics =
    \<lparr>mean = (\<lambda>xs. fl (sum_list xs / of_nat (length xs))),
     median = (\<lambda>xs. let s = sort xs; n = length s in
                 if odd n then s ! (n div 2)
                 else fl (fl (s ! (n div 2 - 1) + s ! (n div 2)) / 2)),
     stdev = (\<lambda>xs. let m = sum_list xs / of_nat (length xs) in
                fl (sum_list (map (\<lambda>x. (x - m) * (x - m)) xs) / of_nat (length xs - 1)))\<rparr>"

definition mixed_run :: tester where
  "mixed_run =
    \<lparr>url = ''https://example.com/api'', http_method = ''GET'', request_body = None,
     requests_per_second = 2, total_requests = 3, use_random_user_agent = False,
     results =
       [\<lparr>req_id = 1, status_code = 200, response_time = 120, error = [], timestamp = 10\<rparr>,
        \<lparr>req_id = 2, status_code = 0, response_time = 30000, error = ''Timeout'',
          timestamp = 12\<rparr>,
        \<lparr>req_id = 3, status_code = 0, response_time = 80,
          error = ''Client Error: bad payload'', timestamp = 21 / 2\<rparr>]\<rparr>"




section \<open>Rounding to the nearest double\<close>

lemma pow2_power_int: "pow2 e = power_int 2 e"
  by (simp add: pow2_def power_int_def field_simps)

lemma pow2_pos [simp]: "0 < pow2 e"
  by (simp add: pow2_power_int)

lemma pow2_add: "pow2 (a + b) = pow2 a * pow2 b"
  by (simp add: pow2_power_int power_int_add)

lemma pow2_mono: "a \<le> b \<Longrightarrow> pow2 a \<le> pow2 b"
  by (simp add: pow2_power_int power_int_increasing)

lemma pow2_nat: "pow2 (int n) = 2 ^ n"
  by (simp add: pow2_def)

lemma binade_bounds:
  assumes "0 < x"
  shows "pow2 (binade x) \<le> x \<and> x < pow2 (binade x + 1)"
proof (cases "1 \<le> x")
  case True
  define m where "m = nat \<lfloor>x\<rfloor>"
  have m: "0 < m" "of_nat m \<le> x" "x < of_nat m + 1"
    using True by (simp_all add: m_def le_floor_iff) linarith+
  define k where "k = floorlog 2 m"
  from floorlog_bounds [of m 2] m have b: "2 ^ (k - 1) \<le> m" "m < 2 ^ k"
    by (simp_all add: k_def)
  have k: "0 < k"
    using b m by (cases k) auto
  have e: "binade x = int k - 1"
    using True by (simp add: binade_def k_def m_def)
  have p1: "pow2 (int k - 1) = 2 ^ (k - 1)"
    using k by (simp add: pow2_def nat_diff_distrib)
  have lo: "(2::rat) ^ (k - 1) \<le> of_nat m"
    using b(1) by (metis of_nat_le_iff of_nat_numeral of_nat_power)
  have up: "of_nat m + 1 \<le> (2::rat) ^ k"
  proof -
    have "m + 1 \<le> 2 ^ k" using b(2) by simp
    then have "(of_nat (m + 1) :: rat) \<le> of_nat (2 ^ k)"
      by (simp only: of_nat_le_iff)
    then show ?thesis by simp
  qed
  have p2: "pow2 (int k - 1 + 1) = 2 ^ k"
    by (simp add: pow2_def)
  have "pow2 (int k - 1) \<le> x"
    unfolding p1 using lo m(2) by linarith
  moreover have "x < pow2 (int k - 1 + 1)"
    unfolding p2 using up m(3) by linarith
  ultimately show ?thesis
    unfolding e by simp
next
  case False
  define y where "y = 1 / x"
  have y: "1 < y" "x = 1 / y"
    using False assms by (simp_all add: y_def)
  define m where "m = nat (\<lceil>y\<rceil> - 1)"
  have c: "2 \<le> \<lceil>y\<rceil>"
    using y(1) by linarith
  have m: "0 < m" "int m = \<lceil>y\<rceil> - 1"
    using c by (simp_all add: m_def)
  define k where "k = floorlog 2 m"
  from floorlog_bounds [of m 2] m have b: "2 ^ (k - 1) \<le> m" "m < 2 ^ k"
    by (simp_all add: k_def)
  have e: "binade x = - int k"
    using False by (simp add: binade_def k_def m_def y_def)
  have "\<lceil>y\<rceil> \<le> 2 ^ k"
  proof -
    have "int m + 1 \<le> int (2 ^ k)" using b(2) by linarith
    then show ?thesis using m(2) by simp
  qed
  then have up: "y \<le> 2 ^ k"
    by (metis ceiling_le_iff of_int_numeral of_int_power)
  have "2 ^ (k - 1) < \<lceil>y\<rceil>"
  proof -
    have "int (2 ^ (k - 1)) \<le> int m" using b(1) by (simp only: of_nat_le_iff)
    then show ?thesis using m(2) by simp
  qed
  then have lo: "2 ^ (k - 1) < y"
    by (metis less_ceiling_iff of_int_numeral of_int_power)
  have k: "0 < k"
    using b m by (cases k) auto
  have p1: "pow2 (- int k) = 1 / 2 ^ k"
    by (simp add: pow2_def)
  have p2: "pow2 (- int k + 1) = 1 / 2 ^ (k - 1)"
    using k by (cases k) (simp_all add: pow2_def nat_diff_distrib)
  have "1 / 2 ^ k \<le> 1 / y"
    using up y(1) by (simp add: frac_le)
  moreover have "1 / y < 1 / 2 ^ (k - 1)"
    using lo by (simp add: frac_less2)
  ultimately show ?thesis
    using e p1 p2 y(2) by simp
qed

lemma round_half_even_error: "\<bar>of_int (round_half_even y) - y\<bar> \<le> 1 / 2"
proof -
  have "of_int \<lfloor>y\<rfloor> \<le> y" "y < of_int \<lfloor>y\<rfloor> + 1"
    by linarith+
  then show ?thesis
    by (auto simp: round_half_even_def Let_def)
qed

lemma round_half_even_near:
  assumes "\<bar>y - of_int q\<bar> < 1 / 2"
  shows "round_half_even y = q"
proof -
  have "\<bar>(of_int (round_half_even y) :: rat) - of_int q\<bar> < 1"
    using round_half_even_error [of y] assms by linarith
  then have "\<bar>(of_int (round_half_even y - q) :: rat)\<bar> < 1"
    by simp
  then have "\<bar>round_half_even y - q\<bar> < 1"
    by (metis of_int_abs of_int_less_1_iff)
  then show ?thesis
    by simp
qed

lemma round_half_even_of_int [simp]: "round_half_even (of_int q) = q"
  by (rule round_half_even_near) simp

lemma fl_0 [simp]: "fl 0 = 0"
  by (simp add: fl_def)

lemma fl_error:
  assumes "0 < x"
  shows "\<bar>fl x - x\<bar> \<le> x / 2 ^ 53"
proof -
  define u where "u = pow2 (binade x - 52)"
  have u: "0 < u"
    by (simp add: u_def)
  have "pow2 (binade x) = pow2 (binade x - 52) * pow2 52"
    using pow2_add [of "binade x - 52" 52] by simp
  also have "pow2 52 = 2 ^ 52"
    using pow2_nat [of 52] by simp
  finally have "u * 2 ^ 52 \<le> x"
    using binade_bounds [OF assms] by (simp add: u_def)
  then have ux: "u / 2 \<le> x / 2 ^ 53"
    by simp
  have flx: "fl x = of_int (round_half_even (x / u)) * u"
    using assms by (simp add: fl_def u_def Let_def)
  have "\<bar>fl x - x\<bar> = \<bar>of_int (round_half_even (x / u)) - x / u\<bar> * u"
  proof -
    have "fl x - x = (of_int (round_half_even (x / u)) - x / u) * u"
      using u by (simp add: flx field_simps)
    then show ?thesis
      using u by (simp add: abs_mult)
  qed
  also have "\<dots> \<le> 1 / 2 * u"
    using round_half_even_error [of "x / u"] u by (intro mult_right_mono) simp_all
  finally show ?thesis
    using ux by simp
qed

lemma fl_pos: "0 < x \<Longrightarrow> 0 < fl x"
proof -
  assume x: "0 < x"
  have "x / 2 ^ 53 < x"
    using x by (simp add: field_simps)
  with fl_error [OF x] show ?thesis
    by linarith
qed

lemma fl_near_int:
  assumes q: "1 \<le> q" and q53: "q < 2 ^ 53"
    and x: "\<bar>x - of_int q\<bar> < of_int q / 2 ^ 54"
  shows "fl x = of_int q"
proof -
  have q_hi: "(of_int q :: rat) \<le> 2 ^ 53 - 1"
  proof -
    have "q \<le> 2 ^ 53 - 1"
      using q53 by simp
    then have "(of_int q :: rat) \<le> of_int (2 ^ 53 - 1)"
      by (simp only: of_int_le_iff)
    then show ?thesis by simp
  qed
  then have small: "(of_int q :: rat) / 2 ^ 54 < 1 / 2"
    by simp
  have q1: "(1::rat) \<le> of_int q"
    using q by simp
  have xpos: "0 < x"
    using x small q1 by linarith
  define e where "e = binade x"
  from binade_bounds [OF xpos] have b: "pow2 e \<le> x" "x < pow2 (e + 1)"
    by (simp_all add: e_def)
  have e_lo: "- 1 \<le> e"
  proof (rule ccontr)
    assume "\<not> - 1 \<le> e"
    then have "pow2 (e + 1) \<le> pow2 (- 1)"
      by (intro pow2_mono) simp
    moreover have "pow2 (- 1) = 1 / 2"
      by (simp add: pow2_def)
    ultimately show False
      using b(2) x small q1 by linarith
  qed
  have q_le: "of_int q \<le> pow2 (e + 1)"
  proof -
    have p: "pow2 (e + 1) = of_int (2 ^ nat (e + 1))"
      using e_lo by (simp add: pow2_def)
    have "q \<le> 2 ^ nat (e + 1)"
    proof (rule ccontr)
      assume "\<not> q \<le> 2 ^ nat (e + 1)"
      then have "2 ^ nat (e + 1) + 1 \<le> q"
        by simp
      then have "(of_int (2 ^ nat (e + 1) + 1) :: rat) \<le> of_int q"
        by (simp only: of_int_le_iff)
      then have "pow2 (e + 1) + 1 \<le> of_int q"
        using p by simp
      with b(2) x small show False
        by linarith
    qed
    then show ?thesis
      unfolding p by (simp only: of_int_le_iff)
  qed
  have e_hi: "e \<le> 52"
  proof (rule ccontr)
    assume "\<not> e \<le> 52"
    then have "pow2 53 \<le> pow2 e"
      by (intro pow2_mono) simp
    moreover have "pow2 53 = 2 ^ 53"
      using pow2_nat [of 53] by simp
    ultimately show False
      using b(1) x small q_hi by linarith
  qed
  define N where "N = nat (52 - e)"
  define u where "u = pow2 (e - 52)"
  have u: "0 < u"
    by (simp add: u_def)
  have uN: "u * 2 ^ N = 1"
  proof -
    have "pow2 (e - 52) * pow2 (int N) = pow2 0"
      using e_hi pow2_add [of "e - 52" "int N"] by (simp add: N_def)
    then show ?thesis
      by (simp add: u_def pow2_nat) (simp add: pow2_def)
  qed
  have top: "pow2 (e + 1) = 2 ^ 53 * u"
  proof -
    have "e + 1 = e - 52 + 53"
      by simp
    then have "pow2 (e + 1) = pow2 (e - 52) * pow2 53"
      by (simp only: pow2_add)
    moreover have "pow2 53 = 2 ^ 53"
      using pow2_nat [of 53] by simp
    ultimately show ?thesis
      by (simp add: u_def)
  qed
  have Q: "(of_int (q * 2 ^ N) :: rat) = of_int q / u"
  proof -
    have "(2::rat) ^ N = 1 / u"
      using uN u by (simp add: field_simps)
    then show ?thesis by simp
  qed
  have "\<bar>x / u - of_int (q * 2 ^ N)\<bar> = \<bar>x - of_int q\<bar> / u"
  proof -
    have "x / u - of_int (q * 2 ^ N) = (x - of_int q) / u"
      unfolding Q by (simp add: diff_divide_distrib)
    then show ?thesis
      using u by simp
  qed
  also have "\<dots> < (of_int q / 2 ^ 54) / u"
    using x u by (rule divide_strict_right_mono)
  also have "\<dots> \<le> (2 ^ 53 * u / 2 ^ 54) / u"
    using q_le u unfolding top by (intro divide_right_mono) simp_all
  also have "\<dots> = 1 / 2"
    using u by simp
  finally have "round_half_even (x / u) = q * 2 ^ N"
    by (rule round_half_even_near)
  moreover have "fl x = of_int (round_half_even (x / u)) * u"
    using xpos by (simp add: fl_def u_def e_def Let_def)
  ultimately have "fl x = of_int (q * 2 ^ N) * u"
    by simp
  also have "\<dots> = of_int q"
    unfolding Q using u by simp
  finally show ?thesis .
qed

lemma fl_of_int:
  assumes "0 \<le> n" "n < 2 ^ 53"
  shows "fl (of_int n) = of_int n"
proof (cases "n = 0")
  case True
  then show ?thesis by simp
next
  case False
  with assms have "1 \<le> n" by simp
  then show ?thesis
    using assms by (intro fl_near_int) simp_all
qed

section \<open>The percentile index\<close>

lemma percentile_constants:
  "int_truediv 50 100 = 1 / 2"
  "int_truediv 75 100 = 3 / 4"
  "int_truediv 90 100 = 8106479329266893 / 2 ^ 53"
  "int_truediv 95 100 = 8556839292003942 / 2 ^ 53"
  "int_truediv 99 100 = 8917127262193582 / 2 ^ 53"
  "int_truediv 100 100 = 1"
  by code_simp+

lemma floor_fl_product:
  assumes p: "0 < p" "p \<le> 100"
    and c: "\<bar>c - of_int p / 100\<bar> < (of_int p / 100) / 2 ^ 54"
    and n: "1 \<le> n" "n < 2 ^ 44"
  shows "\<lfloor>fl (c * of_int n)\<rfloor> = p * n div 100"
proof -
  define q where "q = p * n div 100"
  define r where "r = p * n mod 100"
  define t :: rat where "t = of_int p * of_int n / 100"
  define x where "x = c * of_int n"
  have r: "0 \<le> r" "r < 100"
    by (simp_all add: r_def)
  have "p * n = 100 * q + r"
    by (simp add: q_def r_def)
  then have "(of_int (p * n) :: rat) = of_int (100 * q + r)"
    by simp
  then have t: "t = of_int q + of_int r / 100"
    by (simp add: t_def)
  have n1: "(1::rat) \<le> of_int n"
    using n(1) by simp
  have n44: "(of_int n :: rat) \<le> 2 ^ 44"
  proof -
    have "(of_int n :: rat) \<le> of_int (2 ^ 44)"
      using n(2) by (simp only: of_int_le_iff)
    then show ?thesis by simp
  qed
  have p1: "(0::rat) < of_int p" "(of_int p :: rat) \<le> 100"
    using p by simp_all
  have tpos: "0 < t"
    using p1 n1 by (simp add: t_def)
  have t_le: "t \<le> of_int n"
  proof -
    have "of_int p * (of_int n :: rat) \<le> 100 * of_int n"
      using p1 n1 by (intro mult_right_mono) simp_all
    then show ?thesis by (simp add: t_def)
  qed
  have xt: "\<bar>x - t\<bar> < t / 2 ^ 54"
  proof -
    have "x - t = (c - of_int p / 100) * of_int n"
      by (simp add: x_def t_def algebra_simps)
    then have "\<bar>x - t\<bar> = \<bar>c - of_int p / 100\<bar> * of_int n"
      using n1 by (simp add: abs_mult)
    also have "\<dots> < (of_int p / 100) / 2 ^ 54 * of_int n"
      using c n1 by (intro mult_strict_right_mono) simp_all
    also have "\<dots> = t / 2 ^ 54"
      by (simp add: t_def)
    finally show ?thesis .
  qed
  show ?thesis
  proof (cases "r = 0")
    case True
    then have tq: "t = of_int q"
      using t by simp
    have "0 < q"
      using tpos tq by simp
    moreover have "q < 2 ^ 53"
    proof -
      have "(of_int q :: rat) < of_int (2 ^ 53)"
        using t_le n44 tq by simp
      then show ?thesis by (simp only: of_int_less_iff)
    qed
    ultimately have "fl x = of_int q"
      using xt unfolding tq by (intro fl_near_int) simp_all
    then show ?thesis
      by (simp add: x_def q_def)
  next
    case False
    with r have r1: "1 \<le> r" "r \<le> 99"
      by simp_all
    then have rr: "(1::rat) \<le> of_int r" "(of_int r :: rat) \<le> 99"
      by simp_all
    have "t / 2 ^ 54 < t"
      using tpos by simp
    then have xpos: "0 < x"
      using xt by linarith
    from fl_error [OF xpos] have e: "\<bar>fl x - x\<bar> \<le> x / 2 ^ 53" .
    have tb: "t \<le> 17592186044416"
      using t_le n44 by simp
    then have d1: "t / 2 ^ 54 \<le> 1 / 1024"
      by simp
    have "x \<le> 17592186044417"
      using xt d1 tb by linarith
    then have d2: "x / 2 ^ 53 \<le> 1 / 256"
      by simp
    have "of_int q \<le> fl x" "fl x < of_int q + 1"
      using e xt d1 d2 t rr by linarith+
    then have "\<lfloor>fl x\<rfloor> = q"
      by (simp add: floor_unique)
    then show ?thesis
      by (simp add: x_def q_def)
  qed
qed


lemma percentile_constants_close:
  assumes "p \<in> set percentiles \<or> p = 100"
  shows "\<bar>int_truediv p 100 - of_int p / 100\<bar> < (of_int p / 100) / 2 ^ 54"
proof -
  have "\<bar>int_truediv 50 100 - of_int 50 / 100\<bar> < (of_int 50 / 100) / 2 ^ 54"
    "\<bar>int_truediv 75 100 - of_int 75 / 100\<bar> < (of_int 75 / 100) / 2 ^ 54"
    "\<bar>int_truediv 90 100 - of_int 90 / 100\<bar> < (of_int 90 / 100) / 2 ^ 54"
    "\<bar>int_truediv 95 100 - of_int 95 / 100\<bar> < (of_int 95 / 100) / 2 ^ 54"
    "\<bar>int_truediv 99 100 - of_int 99 / 100\<bar> < (of_int 99 / 100) / 2 ^ 54"
    "\<bar>int_truediv 100 100 - of_int 100 / 100\<bar> < (of_int 100 / 100) / 2 ^ 54"
    by (simp_all add: percentile_constants)
  with assms show ?thesis
    by (auto simp: percentiles_def)
qed

lemma percentile_constants_bounds:
  assumes "p \<in> set percentiles"
  shows "0 < int_truediv p 100 \<and> int_truediv p 100 \<le> 99 / 100"
  using assms by (auto simp: percentiles_def percentile_constants)

lemma percentile_index_exact:
  assumes p: "p \<in> set percentiles \<or> p = 100" and n: "1 \<le> n" "n < 2 ^ 44"
  shows "percentile_index p n = max 0 (p * n div 100 - 1)"
proof -
  have p': "0 < p" "p \<le> 100"
    using p by (auto simp: percentiles_def)
  have "n < 2 ^ 53"
    using n(2) by simp
  then have a: "float_of_int n = of_int n"
    using n(1) by (simp add: float_of_int_def fl_of_int)
  have "\<lfloor>fl (int_truediv p 100 * of_int n)\<rfloor> = p * n div 100"
    using p' percentile_constants_close [OF p] n by (rule floor_fl_product)
  moreover have "0 \<le> p * n div 100"
    using p' n(1) by (simp add: pos_imp_zdiv_nonneg_iff)
  ultimately have "0 \<le> fl (int_truediv p 100 * of_int n)"
    by (metis of_int_0_le_iff of_int_floor_le order_trans)
  then have "py_int (fmul (int_truediv p 100) (float_of_int n)) = p * n div 100"
    using \<open>\<lfloor>fl (int_truediv p 100 * of_int n)\<rfloor> = p * n div 100\<close>
    by (simp add: py_int_def fmul_def a)
  then show ?thesis
    by (simp add: percentile_index_def Let_def max_def)
qed

lemma percentile_index_in_range:
  assumes p: "p \<in> set percentiles" and n: "1 \<le> n"
  shows "0 \<le> percentile_index p n \<and> percentile_index p n < n"
proof -
  define c where "c = int_truediv p 100"
  define a where "a = float_of_int n"
  define y where "y = fmul c a"
  have c: "0 < c" "c \<le> 99 / 100"
    using percentile_constants_bounds [OF p] by (simp_all add: c_def)
  have n1: "(0::rat) < of_int n"
    using n by simp
  from fl_error [OF n1] have "\<bar>a - of_int n\<bar> \<le> of_int n / 9007199254740992"
    by (simp add: a_def float_of_int_def)
  moreover have apos: "0 < a"
    using fl_pos [OF n1] by (simp add: a_def float_of_int_def)
  moreover from apos c(1) have capos: "0 < c * a"
    by simp
  from fl_error [OF capos] have "\<bar>y - c * a\<bar> \<le> c * a / 9007199254740992"
    by (simp add: y_def fmul_def)
  moreover have "c * a \<le> 99 / 100 * a"
    using c(2) apos by (intro mult_right_mono) simp_all
  ultimately have "y < of_int n"
    using n1 by linarith
  then have "\<lfloor>y\<rfloor> < n" "\<lceil>y\<rceil> \<le> n"
    by (simp_all add: floor_less_iff ceiling_le_iff)
  then have "py_int y - 1 < n"
    by (simp add: py_int_def)
  then show ?thesis
    using n by (simp add: percentile_index_def Let_def y_def c_def a_def)
qed

lemma py_getitem_in_range:
  "0 \<le> i \<Longrightarrow> i < len xs \<Longrightarrow> py_getitem xs i = Inr (xs ! nat i)"
  by (simp add: py_getitem_def)

lemma for_each_total:
  assumes "\<And>x. x \<in> set xs \<Longrightarrow> f x = Inr (g x)"
  shows "for_each f xs = Inr (map g xs)"
  using assms by (induction xs) simp_all

lemma percentile_total:
  assumes "p \<in> set percentiles" "ts \<noteq> []"
  shows "percentile ts p = Inr (ts ! nat (percentile_index p (len ts)))"
proof -
  have "1 \<le> len ts"
    using assms(2) by (cases ts) (simp_all add: len_def)
  from percentile_index_in_range [OF assms(1) this] show ?thesis
    by (simp add: percentile_def py_getitem_in_range)
qed

lemma percentiles_total:
  assumes "ts \<noteq> []"
  shows "for_each (percentile ts) percentiles
           = Inr (map (\<lambda>p. ts ! nat (percentile_index p (len ts))) percentiles)"
  using assms by (intro for_each_total percentile_total)

lemma py_max_Max: "xs \<noteq> [] \<Longrightarrow> py_max xs = Inr (Max (set xs))"
proof (cases xs)
  case Nil
  then show "xs \<noteq> [] \<Longrightarrow> ?thesis" by simp
next
  case (Cons x ys)
  have "(\<lambda>y m :: rat. if m < y then y else m) = max"
    by (intro ext) (simp add: max_def)
  with Cons show ?thesis
    using Max.set_eq_fold [of x ys] by simp
qed

lemma py_min_Min: "xs \<noteq> [] \<Longrightarrow> py_min xs = Inr (Min (set xs))"
proof (cases xs)
  case Nil
  then show "xs \<noteq> [] \<Longrightarrow> ?thesis" by simp
next
  case (Cons x ys)
  have "(\<lambda>y m :: rat. if y < m then y else m) = min"
    by (intro ext) (auto simp: min_def)
  with Cons show ?thesis
    using Min.set_eq_fold [of x ys] by simp
qed

section \<open>The request executor\<close>

lemma make_request_Response:
  "session_request w i (request_args self w i) = Response s \<Longrightarrow>
   make_request self w i =
     Inr (i, s, fmul (fsub (clock_end w i) (clock_start w i)) 1000, [])"
  by (simp add: make_request_def)

lemma make_request_Raises:
  "session_request w i (request_args self w i) = Raises e \<Longrightarrow>
   make_request self w i =
     (let rt = fmul (fsub (clock_end w i) (clock_start w i)) 1000 in
      if isinstance e TimeoutError then Inr (i, 0, rt, ''Timeout'')
      else if isinstance e ClientConnectionError then Inr (i, 0, rt, ''Connection Error'')
      else if isinstance e ClientError then Inr (i, 0, rt, ''Client Error: '' @ str e)
      else if isinstance e Exception then Inr (i, 0, rt, ''Unexpected Error: '' @ str e)
      else Inl e)"
  by (simp add: make_request_def Let_def)



text \<open>
  Claim C4: \<^verbatim>\<open>make_request\<close> raises nothing: a response and every failure (every instance
  of \<^verbatim>\<open>Exception\<close>) comes back as a tuple. A failure has status code 0 and is classified
  in this order: a timeout, then a connection error, then another client error with the
  message of the library, then any other exception with its \<^verbatim>\<open>str()\<close>.
\<close>

theorem make_request_never_raises:
  assumes "\<And>e. session_request w request_id (request_args self w request_id) = Raises e
             \<Longrightarrow> isinstance e Exception"
  shows "(\<exists>r. make_request self w request_id = Inr r) \<and>
         (\<forall>e. session_request w request_id (request_args self w request_id) = Raises e \<longrightarrow>
            (\<exists>rt. make_request self w request_id =
               Inr (request_id, 0, rt,
                    if isinstance e TimeoutError then ''Timeout''
                    else if isinstance e ClientConnectionError then ''Connection Error''
                    else if isinstance e ClientError then ''Client Error: '' @ str e
                    else ''Unexpected Error: '' @ str e)))"
proof (cases "session_request w request_id (request_args self w request_id)")
  case (Response s)
  then show ?thesis
    by (simp add: make_request_Response)
next
  case (Raises e)
  with assms have "isinstance e Exception"
    by simp
  with Raises show ?thesis
    by (simp add: make_request_Raises Let_def)
qed

theorem make_request_never_raises_witness:
  "isinstance server_timeout TimeoutError \<and> isinstance server_timeout ClientConnectionError \<and>
   isinstance server_timeout Exception \<and>
   (\<exists>rt. make_request get_tester slow_world 2 = Inr (2, 0, rt, ''Timeout'')) \<and>
   isinstance payload_error ClientError \<and> isinstance payload_error Exception \<and>
   (\<exists>rt. make_request get_tester slow_world 4 = Inr (4, 0, rt, ''Client Error: bad payload''))"
proof -
  have reply: "session_request slow_world 2 (request_args get_tester slow_world 2)
                 = Raises server_timeout"
    "session_request slow_world 4 (request_args get_tester slow_world 4)
                 = Raises payload_error"
    by (simp_all add: slow_world_def)
  have inst: "isinstance server_timeout TimeoutError"
    "isinstance server_timeout ClientConnectionError" "isinstance server_timeout Exception"
    "\<not> isinstance payload_error TimeoutError"
    "\<not> isinstance payload_error ClientConnectionError"
    "isinstance payload_error ClientError" "isinstance payload_error Exception"
    by (simp_all add: server_timeout_def payload_error_def isinstance_def)
  have "\<And>e. session_request slow_world 2 (request_args get_tester slow_world 2) = Raises e
          \<Longrightarrow> isinstance e Exception"
    using inst by (simp add: reply)
  from make_request_never_raises [where w = slow_world and request_id = 2
      and self = get_tester, OF this] reply inst
  have 2: "\<exists>rt. make_request get_tester slow_world 2 = Inr (2, 0, rt, ''Timeout'')"
    by simp
  have "\<And>e. session_request slow_world 4 (request_args get_tester slow_world 4) = Raises e
          \<Longrightarrow> isinstance e Exception"
    using inst by (simp add: reply)
  from make_request_never_raises [where w = slow_world and request_id = 4
      and self = get_tester, OF this] reply inst
  have 4: "\<exists>rt. make_request get_tester slow_world 4
      = Inr (4, 0, rt, ''Client Error: bad payload'')"
    by (simp add: payload_error_def)
  from inst 2 4 show ?thesis
    by simp
qed

text \<open>
  Claim C10: whatever the method, the headers passed to the HTTP client hold
  \<^verbatim>\<open>Content-Type: application/json\<close>; the body passed is the configured one when the method
  is POST or PUT, and none otherwise, so none for GET and DELETE even when a body is set.
\<close>

theorem content_type_always_body_for_post_put:
  "map_of (req_headers (request_args self w request_id)) ''Content-Type''
     = Some ''application/json'' \<and>
   req_json (request_args self w request_id)
     = (if http_method self = ''POST'' \<or> http_method self = ''PUT'' then request_body self
        else None) \<and>
   (http_method self = ''GET'' \<or> http_method self = ''DELETE''
      \<longrightarrow> req_json (request_args self w request_id) = None)"
  by (auto simp: request_args_def request_headers_def Let_def update_conv')

theorem content_type_always_body_for_post_put_witness:
  "request_body get_tester \<noteq> None \<and>
   map_of (req_headers (request_args get_tester slow_world 1)) ''Content-Type''
     = Some ''application/json'' \<and>
   req_json (request_args get_tester slow_world 1) = None \<and>
   req_json (request_args post_tester slow_world 1) = request_body post_tester"
  using content_type_always_body_for_post_put [of get_tester slow_world 1]
    content_type_always_body_for_post_put [of post_tester slow_world 1]
  by (simp add: get_tester_def post_tester_def)

section \<open>The dispatcher\<close>

text \<open>
  Claim C5: for a positive target rate, the batch size is \<open>min rate 1000\<close> when the rate is at
  least 100, and the rate itself otherwise; the semaphore of every batch is created with
  capacity \<open>min (length of the batch) 1000\<close>.
\<close>

theorem batch_size_and_semaphore:
  assumes "0 < requests_per_second self"
  shows "batch_size self =
           (if 100 \<le> requests_per_second self then min (requests_per_second self) 1000
            else requests_per_second self) \<and>
         (\<forall>b \<in> set (batches self). semaphore b = min (len (batch_requests b)) 1000)"
  by (auto simp: batch_size_def batches_def make_batch_def Let_def)

theorem batch_size_and_semaphore_witness:
  "0 < requests_per_second post_tester \<and> batch_size post_tester = 250 \<and>
   map semaphore (batches post_tester) = [250, 250, 100] \<and>
   map (\<lambda>b. min (len (batch_requests b)) 1000) (batches post_tester) = [250, 250, 100]"
proof -
  have pos: "0 < requests_per_second post_tester"
    by (simp add: post_tester_def)
  have bs: "batch_size post_tester = 250"
    by (simp add: batch_size_def post_tester_def)
  have tr: "total_requests post_tester = 600"
    by (simp add: post_tester_def)
  have "py_range 0 600 250 = [0, 250, 500]"
    by (simp add: py_range.simps)
  then have "map semaphore (batches post_tester) = [250, 250, 100]"
    by (simp add: batches_def bs tr make_batch_def Let_def len_def)
  with batch_size_and_semaphore [OF pos] pos bs show ?thesis
    by (simp cong: map_cong)
qed

section \<open>The summary\<close>

lemma fl_nonneg: "0 \<le> x \<Longrightarrow> 0 \<le> fl x"
  using fl_pos [of x] by (cases "x = 0") (simp_all add: less_eq_rat_def)

lemma duration_and_rate_eq:
  assumes "rs \<noteq> []"
  shows "duration_and_rate rs =
    (let d = fsub (Max (timestamp ` set rs)) (Min (timestamp ` set rs)) in
     Inr (d, if 0 < d then fdiv (float_of_int (len rs)) d else 0))"
  using assms by (simp add: duration_and_rate_def py_max_Max py_min_Min Let_def)

lemma response_time_block_eq:
  assumes "ts \<noteq> []"
  shows "response_time_block lib ts =
    Inr \<lparr>rt_count = len ts,
         rt_average = mean lib ts,
         rt_median = median lib ts,
         rt_min = Min (set ts),
         rt_max = Max (set ts),
         rt_std_dev = (if len ts > 1 then stdev lib ts else 0),
         rt_percentiles =
           map (\<lambda>p. (p, sort ts ! nat (percentile_index p (len ts)))) percentiles\<rparr>"
proof -
  have "sort ts \<noteq> []"
    using assms by (metis length_sort length_0_conv)
  from percentiles_total [OF this] have
    "for_each (percentile (sort ts)) percentiles
       = Inr (map (\<lambda>p. sort ts ! nat (percentile_index p (len ts))) percentiles)"
    by (simp add: len_def)
  then show ?thesis
    using assms
    by (simp add: response_time_block_def py_max_Max py_min_Min Let_def zip_map2
        zip_same_conv_map)
qed

lemma summarize_nonempty:
  assumes "results self \<noteq> []"
  shows "summarize lib self =
    (let rs = results self;
         ok = filter (\<lambda>r. status_code r > 0) rs;
         ts = map response_time ok;
         d = fsub (Max (timestamp ` set rs)) (Min (timestamp ` set rs));
         rate = (if 0 < d then fdiv (float_of_int (len rs)) d else 0)
     in Inr (Summary
       \<lparr>n_total = len rs,
        n_successful = len ok,
        n_failed = len rs - len ok,
        success_rate = fmul (int_truediv (len ok) (len rs)) 100,
        duration_seconds = d,
        target_rps = requests_per_second self,
        rps_actual = rate,
        response_times_block =
          (if ts = [] then None
           else Some \<lparr>rt_count = len ts,
                  rt_average = mean lib ts,
                  rt_median = median lib ts,
                  rt_min = Min (set ts),
                  rt_max = Max (set ts),
                  rt_std_dev = (if len ts > 1 then stdev lib ts else 0),
                  rt_percentiles =
                    map (\<lambda>p. (p, sort ts ! nat (percentile_index p (len ts)))) percentiles\<rparr>),
        throughput_block = throughput self d rate,
        status_code_distribution = distribution (count_status_codes rs) (len rs),
        error_distribution = distribution (count_errors rs) (len rs),
        performance_block = performance (map response_time rs) (len rs)\<rparr>))"
proof (cases "map response_time (filter (\<lambda>r. status_code r > 0) (results self)) = []")
  case True
  then show ?thesis
    using assms
    by (simp add: summarize_def duration_and_rate_eq Let_def del: map_is_Nil_conv)
next
  case False
  then show ?thesis
    using assms response_time_block_eq [OF False, of lib]
    by (simp add: summarize_def duration_and_rate_eq Let_def del: map_is_Nil_conv)
qed

text \<open>
  Claim C6: for a collection that is not empty, the reported test duration is the largest
  timestamp minus the smallest one, over all results whether successful or failed, and the
  reported rate is the number of results divided by that duration, or 0 when the duration
  is 0. Both operations are those of floats: the difference and the quotient are rounded.
\<close>

theorem observed_duration_and_rate:
  assumes "results self \<noteq> []"
  shows "\<exists>sd. print_summary lib self = (Inr (Summary sd), self) \<and>
           duration_seconds sd =
             fsub (Max (timestamp ` set (results self))) (Min (timestamp ` set (results self))) \<and>
           rps_actual sd =
             (if duration_seconds sd = 0 then 0
              else fdiv (float_of_int (len (results self))) (duration_seconds sd))"
proof -
  define d where
    "d = fsub (Max (timestamp ` set (results self))) (Min (timestamp ` set (results self)))"
  have "Min (timestamp ` set (results self)) \<le> Max (timestamp ` set (results self))"
    using assms by (cases "results self") (auto simp: Min_le_iff)
  then have "0 \<le> d"
    by (simp add: d_def fsub_def fl_nonneg)
  then have "(0 < d) = (d \<noteq> 0)"
    by auto
  then show ?thesis
    using assms by (simp add: print_summary_def summarize_nonempty Let_def d_def)
qed

theorem observed_duration_and_rate_witness:
  "results mixed_run \<noteq> [] \<and>
   (\<exists>sd. print_summary plain_statistics mixed_run = (Inr (Summary sd), mixed_run) \<and>
      duration_seconds sd = 2 \<and> rps_actual sd = 3 / 2)"
proof -
  have ne: "results mixed_run \<noteq> []"
    by (simp add: mixed_run_def)
  have "timestamp ` set (results mixed_run) = {10, 12, 21 / 2}"
    by (simp add: mixed_run_def)
  then have mm: "Max (timestamp ` set (results mixed_run)) = 12"
    "Min (timestamp ` set (results mixed_run)) = 10"
    by simp_all
  have n: "len (results mixed_run) = 3"
    by (simp add: mixed_run_def len_def)
  have ev: "fsub 12 10 = 2" "fdiv (float_of_int 3) 2 = 3 / 2"
    by code_simp+
  from observed_duration_and_rate [OF ne, of plain_statistics] obtain sd where
    sd: "print_summary plain_statistics mixed_run = (Inr (Summary sd), mixed_run)"
    "duration_seconds sd = 2"
    "rps_actual sd = (if duration_seconds sd = 0 then 0
       else fdiv (float_of_int (len (results mixed_run))) (duration_seconds sd))"
    unfolding mm ev by blast
  from sd(2,3) have "rps_actual sd = 3 / 2"
    by (simp add: n ev)
  with sd(1,2) ne show ?thesis
    by blast
qed











section \<open>The run\<close>


lemma request_args_results [simp]:
  "request_args (self\<lparr>results := rs\<rparr>) w i = request_args self w i"
  by (simp add: request_args_def request_headers_def)

lemma make_request_results [simp]:
  "make_request (self\<lparr>results := rs\<rparr>) w i = make_request self w i"
  by (simp add: make_request_def)













section \<open>The percentile ladder\<close>

lemma floor_rank: "\<lfloor>(of_int p :: rat) / 100 * of_int n\<rfloor> = p * n div 100"
proof -
  have "(of_int p :: rat) / 100 * of_int n = of_int (p * n) / of_int 100"
    by simp
  then show ?thesis
    by (simp only: floor_divide_of_int_eq)
qed

lemma sorted_last_Max:
  assumes "sorted xs" "xs \<noteq> []"
  shows "xs ! (length xs - 1) = Max (set xs)"
proof -
  have "\<forall>y \<in> set xs. y \<le> xs ! (length xs - 1)"
  proof
    fix y assume "y \<in> set xs"
    then obtain i where "i < length xs" "y = xs ! i"
      by (auto simp: in_set_conv_nth)
    with assms show "y \<le> xs ! (length xs - 1)"
      by (auto intro!: sorted_nth_mono)
  qed
  moreover have "xs ! (length xs - 1) \<in> set xs"
    using assms(2) by simp
  ultimately show ?thesis
    by (intro Max_eqI [symmetric]) simp_all
qed

lemma len_bounds:
  assumes "ts \<noteq> []" "length ts < 2 ^ 44"
  shows "1 \<le> len ts" "len ts < 2 ^ 44"
proof -
  show "1 \<le> len ts"
    using assms(1) by (cases ts) (simp_all add: len_def)
  have "int (length ts) < int (2 ^ 44)"
    using assms(2) by (simp only: of_nat_less_iff)
  then show "len ts < 2 ^ 44"
    by (simp add: len_def)
qed

lemma percentile_index_floor:
  assumes "p \<in> set percentiles \<or> p = 100" "1 \<le> n" "n < 2 ^ 44"
  shows "percentile_index p n = max 0 (\<lfloor>(of_int p :: rat) / 100 * of_int n\<rfloor> - 1)"
  using percentile_index_exact [OF assms] by (simp only: floor_rank)

lemma percentile_value:
  assumes p: "p \<in> set percentiles \<or> p = 100" and ne: "ts \<noteq> []" and n: "length ts < 2 ^ 44"
  shows "percentile ts p
           = Inr (ts ! nat (max 0 (\<lfloor>(of_int p :: rat) / 100 * of_int (len ts)\<rfloor> - 1)))"
proof -
  note b = len_bounds [OF ne n]
  have "p \<le> 100"
    using p by (auto simp: percentiles_def)
  then have "p * len ts \<le> 100 * len ts"
    using b(1) by (intro mult_right_mono) simp_all
  then have "p * len ts div 100 \<le> len ts"
    by simp
  then have "percentile_index p (len ts) < len ts" "0 \<le> percentile_index p (len ts)"
    using b(1) by (simp_all add: percentile_index_exact [OF p b])
  then show ?thesis
    by (simp add: percentile_def py_getitem_in_range percentile_index_floor [OF p b])
qed

text \<open>
  Claim C1, as the code has it: for every percentile \<open>p\<close> of the ladder 50, 75, 90, 95, 99
  and every list of successful response times that is not empty (and has fewer than
  \<open>2 ^ 44\<close> elements), the reported value is the element of the sorted list at index
  \<open>max 0 (floor (p / 100 * n) - 1)\<close>: the rank is rounded down, not up. The float
  computation of the index agrees with this exact formula. On a sorted list percentile 100
  is the maximum, and \<open>p = 50\<close> on \<open>[10, 20, 30, 40]\<close> gives 20.
\<close>

theorem percentile_floor_rank:
  assumes "ts \<noteq> []" and "length ts < 2 ^ 44"
  shows "(\<exists>b. response_time_block lib ts = Inr b \<and>
            rt_percentiles b =
              map (\<lambda>p. (p, sort ts !
                     nat (max 0 (\<lfloor>(of_int p :: rat) / 100 * of_int (len ts)\<rfloor> - 1))))
                [50, 75, 90, 95, 99]) \<and>
         (\<forall>p \<in> {50, 75, 90, 95, 99}.
            percentile (sort ts) p =
              Inr (sort ts ! nat (max 0 (\<lfloor>(of_int p :: rat) / 100 * of_int (len ts)\<rfloor> - 1)))) \<and>
         percentile (sort ts) 100 = Inr (Max (set ts)) \<and>
         percentile [10, 20, 30, 40] 50 = Inr 20"
proof -
  note b = len_bounds [OF assms]
  have s: "sort ts \<noteq> []" "length (sort ts) < 2 ^ 44" "len (sort ts) = len ts"
    using assms by (simp_all add: len_def) (metis length_0_conv length_sort)
  have each: "percentile (sort ts) p =
      Inr (sort ts ! nat (max 0 (\<lfloor>(of_int p :: rat) / 100 * of_int (len ts)\<rfloor> - 1)))"
    if "p \<in> set percentiles \<or> p = 100" for p
    using percentile_value [OF that s(1,2)] by (simp only: s(3))
  have "map (\<lambda>p. (p, sort ts ! nat (percentile_index p (len ts)))) percentiles
      = map (\<lambda>p. (p, sort ts !
           nat (max 0 (\<lfloor>(of_int p :: rat) / 100 * of_int (len ts)\<rfloor> - 1)))) percentiles"
  proof (rule map_cong [OF refl])
    fix p assume "p \<in> set percentiles"
    then have "p \<in> set percentiles \<or> p = 100"
      by simp
    from percentile_index_floor [OF this b]
    show "(p, sort ts ! nat (percentile_index p (len ts)))
        = (p, sort ts ! nat (max 0 (\<lfloor>(of_int p :: rat) / 100 * of_int (len ts)\<rfloor> - 1)))"
      by (simp only:)
  qed
  then have 1: "\<exists>b. response_time_block lib ts = Inr b \<and>
            rt_percentiles b =
              map (\<lambda>p. (p, sort ts !
                     nat (max 0 (\<lfloor>(of_int p :: rat) / 100 * of_int (len ts)\<rfloor> - 1))))
                [50, 75, 90, 95, 99]"
    using response_time_block_eq [OF assms(1), of lib] by (simp add: percentiles_def)
  have 2: "\<forall>p \<in> {50, 75, 90, 95, 99}.
            percentile (sort ts) p =
              Inr (sort ts ! nat (max 0 (\<lfloor>(of_int p :: rat) / 100 * of_int (len ts)\<rfloor> - 1)))"
    using each by (simp add: percentiles_def)
  have "nat (max 0 (\<lfloor>(of_int 100 :: rat) / 100 * of_int (len ts)\<rfloor> - 1)) = length (sort ts) - 1"
    using b(1) by (simp add: len_def)
  with each [of 100] have "percentile (sort ts) 100 = Inr (sort ts ! (length (sort ts) - 1))"
    by simp
  also have "sort ts ! (length (sort ts) - 1) = Max (set (sort ts))"
    using s(1) by (intro sorted_last_Max) simp_all
  finally have 3: "percentile (sort ts) 100 = Inr (Max (set ts))"
    by simp
  have "percentile [10, 20, 30, 40] 50
      = Inr ([10, 20, 30, 40] ! nat (max 0 (\<lfloor>(of_int 50 :: rat) / 100 * of_int (len [10, 20, 30, 40 :: rat])\<rfloor> - 1)))"
    by (rule percentile_value) (simp_all add: percentiles_def)
  then have 4: "percentile [10, 20, 30, 40] 50 = Inr 20"
    by (simp add: len_def)
  from 1 2 3 4 show ?thesis
    by blast
qed

theorem percentile_floor_rank_witness:
  "[10, 20, 30 :: rat] \<noteq> [] \<and> length [10, 20, 30 :: rat] < 2 ^ 44 \<and>
   percentile (sort [10, 20, 30]) 50 = Inr 10 \<and>
   percentile (sort [10, 20, 30]) 99 = Inr 20 \<and>
   percentile (sort [10, 20, 30]) 100 = Inr 30 \<and>
   (\<exists>b. response_time_block plain_statistics [10, 20, 30] = Inr b \<and>
      rt_percentiles b = [(50, 10), (75, 20), (90, 20), (95, 20), (99, 20)])"
proof -
  have h: "[10, 20, 30 :: rat] \<noteq> []" "length [10, 20, 30 :: rat] < 2 ^ 44"
    by simp_all
  have fl: "\<lfloor>(3 :: rat) / 2\<rfloor> = 1" "\<lfloor>(9 :: rat) / 4\<rfloor> = 2" "\<lfloor>(27 :: rat) / 10\<rfloor> = 2"
    "\<lfloor>(57 :: rat) / 20\<rfloor> = 2" "\<lfloor>(297 :: rat) / 100\<rfloor> = 2"
    by (simp_all add: floor_unique)
  from percentile_floor_rank [OF h, of plain_statistics] h show ?thesis
    by (simp add: len_def fl)
qed

text \<open>
  The claim as the spec states it fails: with three successful response times 10, 20, 30
  the nearest rank of percentile 50 is \<open>ceiling (0.5 * 3) = 2\<close>, so index 1 and the value
  20; the code reports the element at index \<open>int (0.5 * 3) - 1 = 0\<close>, the value 10.
\<close>

theorem nearest_rank_counterexample:
  "\<not> (percentile [10, 20, 30] 50
        = Inr ([10, 20, 30] !
            nat (max 0 (\<lceil>(50 :: rat) / 100 * of_int (len [10, 20, 30 :: rat])\<rceil> - 1))))"
proof -
  have "percentile [10, 20, 30] 50
      = Inr ([10, 20, 30] ! nat (max 0 (\<lfloor>(of_int 50 :: rat) / 100 * of_int (len [10, 20, 30 :: rat])\<rfloor> - 1)))"
    by (rule percentile_value) (simp_all add: percentiles_def)
  moreover have "\<lfloor>(50 :: rat) / 100 * 3\<rfloor> = 1" "\<lceil>(50 :: rat) / 100 * 3\<rceil> = 2"
    by (simp_all add: floor_unique ceiling_unique)
  ultimately show ?thesis
    by (simp add: len_def)
qed

end
